theory Spec2Isabelle
  imports Complex_Main "HOL-Library.AList" "HOL-Library.Multiset" "HOL-Library.Product_Lexorder"
begin

section \<open>Python values, strings and dictionaries\<close>

text \<open>
  The stores keep their records in a JSON file: a dictionary from entry id to a
  dictionary of six fields. Field values are dynamically typed (an update may write
  any value under an existing key), so a persisted record is an association list of
  dynamically typed values. An association list keeps Python's insertion order, which
  the retrieval loops iterate in.

  \<open>PTime t\<close> stands for the ISO-8601 text that \<open>datetime.isoformat()\<close> writes for the
  instant \<open>t\<close> and that \<open>datetime.fromisoformat\<close> reads back as \<open>t\<close>; instants are
  naive datetimes, counted as natural numbers, so that their comparison is the
  comparison of numbers. Strings are ASCII: \<open>lower\<close> folds the letters A to Z.
\<close>

datatype pyval =
    PNone
  | PBool bool
  | PInt int
  | PFloat real
  | PStr string
  | PTime nat
  | PList "pyval list"
  | PDict "(string \<times> pyval) list"

type_synonym pydict = "(string \<times> pyval) list"

definition lower_char :: "char \<Rightarrow> char" where
  "lower_char c =
     (case map_of (zip ''ABCDEFGHIJKLMNOPQRSTUVWXYZ'' ''abcdefghijklmnopqrstuvwxyz'') c of
        Some l \<Rightarrow> l
      | None \<Rightarrow> c)"

definition lower :: "string \<Rightarrow> string" where
  "lower s = map lower_char s"

fun starts_with :: "string \<Rightarrow> string \<Rightarrow> bool" where
  "starts_with [] hs = True"
| "starts_with (n # ns) [] = False"
| "starts_with (n # ns) (h # hs) = (n = h \<and> starts_with ns hs)"

text \<open>\<open>py_in needle haystack\<close> is Python's \<open>needle in haystack\<close> on strings.\<close>

fun py_in :: "string \<Rightarrow> string \<Rightarrow> bool" where
  "py_in n [] = (n = [])"
| "py_in n (h # hs) = (starts_with n (h # hs) \<or> py_in n hs)"

text \<open>Python's slice \<open>xs[:n]\<close>: a negative bound counts from the end.\<close>

definition py_take :: "int \<Rightarrow> 'a list \<Rightarrow> 'a list" where
  "py_take n xs = (if 0 \<le> n then take (nat n) xs else take (nat (int (length xs) + n)) xs)"

text \<open>
  \<open>list.sort(key=f, reverse=True)\<close>: descending by key and stable, so entries with
  equal keys keep their order. Insertion from the right, placing an entry in front of
  the first one whose key is not larger.
\<close>

fun insert_desc :: "('a \<Rightarrow> 'k::linorder) \<Rightarrow> 'a \<Rightarrow> 'a list \<Rightarrow> 'a list" where
  "insert_desc f x [] = [x]"
| "insert_desc f x (y # ys) = (if f y \<le> f x then x # y # ys else y # insert_desc f x ys)"

definition sort_desc :: "('a \<Rightarrow> 'k::linorder) \<Rightarrow> 'a list \<Rightarrow> 'a list" where
  "sort_desc f xs = foldr (insert_desc f) xs []"

section \<open>Memory entries and the access log (base\_memory.py)\<close>

record MemoryEntry =
  entry_id :: string
  content :: string
  metadata :: pydict
  timestamp :: nat
  agent_id :: string
  tags :: "string list"
  importance_score :: real

record log_record =
  log_timestamp :: nat
  operation :: string
  log_agent_id :: pyval
  details :: pydict

text \<open>\<open>log_access\<close> appends one record; \<open>now\<close> is the reading of \<open>datetime.now()\<close>.\<close>

definition log_access :: "nat \<Rightarrow> string \<Rightarrow> pyval \<Rightarrow> pydict \<Rightarrow> log_record list \<Rightarrow> log_record list" where
  "log_access now op agent det lg =
     lg @ [\<lparr>log_timestamp = now, operation = op, log_agent_id = agent, details = det\<rparr>]"

text \<open>The dictionary a store writes for an entry.\<close>

definition entry_record :: "MemoryEntry \<Rightarrow> pydict" where
  "entry_record e =
     [(''content'', PStr (content e)),
      (''metadata'', PDict (metadata e)),
      (''timestamp'', PTime (timestamp e)),
      (''agent_id'', PStr (agent_id e)),
      (''tags'', PList (map PStr (tags e))),
      (''importance_score'', PFloat (importance_score e))]"

section \<open>Exceptions and partial coverage\<close>

text \<open>
  Reading a record back can raise: a missing key, a value without the method that is
  called on it. \<open>Raise\<close> carries the exception; the \<open>try\<close>/\<open>except\<close> of the calling
  method turns it into a result. \<open>Unmodelled\<close> marks the places where Python goes on
  but this model does not follow it: the text of a \<open>PTime\<close>, \<open>str()\<close> of a float or a
  container, and a record whose fields do not have the types \<open>MemoryEntry\<close> annotates
  (Python passes such values through and may fail later, while sorting).
\<close>

datatype pyexn =
    KeyError string
  | AttributeError string
  | TypeError string
  | ValueError string

datatype 'a outcome = Ok 'a | Raise pyexn | Unmodelled

fun bind :: "'a outcome \<Rightarrow> ('a \<Rightarrow> 'b outcome) \<Rightarrow> 'b outcome" where
  "bind (Ok x) f = f x"
| "bind (Raise e) f = Raise e"
| "bind Unmodelled f = Unmodelled"

fun type_name :: "pyval \<Rightarrow> string" where
  "type_name PNone = ''NoneType''"
| "type_name (PBool b) = ''bool''"
| "type_name (PInt i) = ''int''"
| "type_name (PFloat r) = ''float''"
| "type_name (PStr s) = ''str''"
| "type_name (PTime t) = ''str''"
| "type_name (PList xs) = ''list''"
| "type_name (PDict d) = ''dict''"

definition no_attribute :: "pyval \<Rightarrow> string \<Rightarrow> pyexn" where
  "no_attribute v a =
     AttributeError ([CHR 0x27] @ type_name v @ [CHR 0x27] @ '' object has no attribute ''
                     @ [CHR 0x27] @ a @ [CHR 0x27])"

definition not_iterable :: "pyval \<Rightarrow> pyexn" where
  "not_iterable v = TypeError ([CHR 0x27] @ type_name v @ [CHR 0x27] @ '' object is not iterable'')"

text \<open>\<open>str(e)\<close> of an exception, as the error branch logs it.\<close>

fun str_exn :: "pyexn \<Rightarrow> string" where
  "str_exn (KeyError k) = [CHR 0x27] @ k @ [CHR 0x27]"
| "str_exn (AttributeError m) = m"
| "str_exn (TypeError m) = m"
| "str_exn (ValueError m) = m"

text \<open>\<open>d[k]\<close>\<close>

definition get_item :: "pydict \<Rightarrow> string \<Rightarrow> pyval outcome" where
  "get_item d k = (case map_of d k of None \<Rightarrow> Raise (KeyError k) | Some v \<Rightarrow> Ok v)"

text \<open>\<open>v.lower()\<close>\<close>

fun lower_of :: "pyval \<Rightarrow> string outcome" where
  "lower_of (PStr s) = Ok (lower s)"
| "lower_of (PTime t) = Unmodelled"
| "lower_of v = Raise (no_attribute v ''lower'')"

text \<open>The elements a \<open>for\<close> over a value visits.\<close>

fun py_iter :: "pyval \<Rightarrow> pyval list outcome" where
  "py_iter (PList xs) = Ok xs"
| "py_iter (PStr s) = Ok (map (\<lambda>c. PStr [c]) s)"
| "py_iter (PDict d) = Ok (map (\<lambda>kv. PStr (fst kv)) d)"
| "py_iter (PTime t) = Unmodelled"
| "py_iter v = Raise (not_iterable v)"

text \<open>Decimal text of an integer, for \<open>str()\<close>.\<close>

definition digit_char :: "nat \<Rightarrow> char" where
  "digit_char d = ''0123456789'' ! d"

fun str_nat :: "nat \<Rightarrow> string" where
  "str_nat n = (if n < 10 then [digit_char n] else str_nat (n div 10) @ [digit_char (n mod 10)])"

declare str_nat.simps [simp del]

definition str_int :: "int \<Rightarrow> string" where
  "str_int i = (if i < 0 then CHR ''-'' # str_nat (nat (- i)) else str_nat (nat i))"

fun py_str :: "pyval \<Rightarrow> string outcome" where
  "py_str (PStr s) = Ok s"
| "py_str PNone = Ok ''None''"
| "py_str (PBool b) = Ok (if b then ''True'' else ''False'')"
| "py_str (PInt i) = Ok (str_int i)"
| "py_str v = Unmodelled"

text \<open>\<open>any(tag.lower() in query_lower for tag in tags)\<close>, stopping at the first hit.\<close>

fun any_tag :: "string \<Rightarrow> pyval list \<Rightarrow> bool outcome" where
  "any_tag ql [] = Ok False"
| "any_tag ql (t # ts) =
     bind (lower_of t) (\<lambda>tl. if py_in tl ql then Ok True else any_tag ql ts)"

text \<open>\<open>any(query_lower in str(v).lower() for v in metadata.values())\<close>\<close>

fun any_value :: "string \<Rightarrow> pyval list \<Rightarrow> bool outcome" where
  "any_value ql [] = Ok False"
| "any_value ql (v # vs) =
     bind (py_str v) (\<lambda>s. if py_in ql (lower s) then Ok True else any_value ql vs)"

text \<open>\<open>metadata.values()\<close>\<close>

fun py_values :: "pyval \<Rightarrow> pyval list outcome" where
  "py_values (PDict d) = Ok (map snd d)"
| "py_values v = Raise (no_attribute v ''values'')"

text \<open>\<open>datetime.fromisoformat(v)\<close>; whether an arbitrary string parses is not modelled.\<close>

fun fromisoformat :: "pyval \<Rightarrow> nat outcome" where
  "fromisoformat (PTime t) = Ok t"
| "fromisoformat (PStr s) = Unmodelled"
| "fromisoformat v = Raise (TypeError ''fromisoformat: argument must be str'')"

text \<open>Reading the fields at the types \<open>MemoryEntry\<close> declares.\<close>

fun as_str :: "pyval \<Rightarrow> string outcome" where
  "as_str (PStr s) = Ok s"
| "as_str v = Unmodelled"

fun as_dict :: "pyval \<Rightarrow> pydict outcome" where
  "as_dict (PDict d) = Ok d"
| "as_dict v = Unmodelled"

fun as_strs :: "pyval list \<Rightarrow> string list outcome" where
  "as_strs [] = Ok []"
| "as_strs (v # vs) = bind (as_str v) (\<lambda>s. bind (as_strs vs) (\<lambda>ss. Ok (s # ss)))"

fun as_str_list :: "pyval \<Rightarrow> string list outcome" where
  "as_str_list (PList xs) = as_strs xs"
| "as_str_list v = Unmodelled"

fun as_float :: "pyval \<Rightarrow> real outcome" where
  "as_float (PFloat r) = Ok r"
| "as_float (PInt i) = Ok (real_of_int i)"
| "as_float v = Unmodelled"

text \<open>
  The \<open>MemoryEntry(...)\<close> call of both retrieve methods: the keyword arguments are
  evaluated in the order written, so the first missing key is the one reported.
\<close>

definition make_entry :: "string \<Rightarrow> pydict \<Rightarrow> MemoryEntry outcome" where
  "make_entry k r =
     bind (get_item r ''content'') (\<lambda>c. bind (as_str c) (\<lambda>c'.
     bind (get_item r ''metadata'') (\<lambda>m. bind (as_dict m) (\<lambda>m'.
     bind (get_item r ''timestamp'') (\<lambda>t. bind (fromisoformat t) (\<lambda>t'.
     bind (get_item r ''agent_id'') (\<lambda>a. bind (as_str a) (\<lambda>a'.
     bind (get_item r ''tags'') (\<lambda>g. bind (as_str_list g) (\<lambda>g'.
     bind (get_item r ''importance_score'') (\<lambda>i. bind (as_float i) (\<lambda>i'.
       Ok \<lparr>entry_id = k, content = c', metadata = m', timestamp = t', agent_id = a',
           tags = g', importance_score = i'\<rparr>))))))))))))"

section \<open>Private store (private\_memory.py)\<close>

text \<open>
  \<open>access_log\<close> is \<open>self.access_log\<close> of the base class. \<open>json_file\<close> is the content
  of the JSON file of a store, which \<open>_load_json\<close> reads and \<open>_save_json\<close> writes: both
  concrete stores have one. \<open>store_agent_id\<close> is \<open>self.agent_id\<close>, the owner a private
  store is bound to. Every method takes the readings of \<open>datetime.now()\<close> it makes as
  arguments.
\<close>

record BaseMemorySystem =
  access_log :: "log_record list"

record JsonMemorySystem = BaseMemorySystem +
  json_file :: "(string \<times> pydict) list"

record PrivateMemorySystem = JsonMemorySystem +
  store_agent_id :: string

definition private_store :: "PrivateMemorySystem \<Rightarrow> MemoryEntry \<Rightarrow> nat \<Rightarrow> bool \<times> PrivateMemorySystem" where
  "private_store st e now =
     (if agent_id e \<noteq> store_agent_id st then
        (False, st\<lparr>access_log := log_access now ''store_denied'' (PStr (agent_id e))
                     [(''entry_id'', PStr (entry_id e)),
                      (''reason'', PStr ''cross_agent_access_denied'')] (access_log st)\<rparr>)
      else
        (True, st\<lparr>json_file := AList.update (entry_id e) (entry_record e) (json_file st),
                   access_log := log_access now ''store'' (PStr (agent_id e))
                     [(''entry_id'', PStr (entry_id e)),
                      (''content_length'', PInt (int (length (content e)))),
                      (''tags'', PList (map PStr (tags e)))] (access_log st)\<rparr>))"

text \<open>The condition of the private retrieve loop, with Python's short-circuit order.\<close>

definition private_match :: "string \<Rightarrow> pydict \<Rightarrow> bool outcome" where
  "private_match ql r =
     bind (get_item r ''content'') (\<lambda>c. bind (lower_of c) (\<lambda>cl.
       if py_in ql cl then Ok True
       else bind (get_item r ''tags'') (\<lambda>g. bind (py_iter g) (\<lambda>ts. bind (any_tag ql ts) (\<lambda>hit.
         if hit then Ok True
         else bind (get_item r ''metadata'') (\<lambda>m. bind (py_values m) (\<lambda>vs.
           any_value ql vs)))))))"

text \<open>
  The loop \<open>for entry_id, entry_data in data.items()\<close> of both keyword searches:
  records are visited in insertion order, a record that meets the condition is read
  back as a \<open>MemoryEntry\<close> and appended.
\<close>

fun scan :: "(pydict \<Rightarrow> bool outcome) \<Rightarrow> (string \<times> pydict) list \<Rightarrow> MemoryEntry list outcome" where
  "scan cond [] = Ok []"
| "scan cond (kr # rest) =
     bind (cond (snd kr)) (\<lambda>hit.
       if hit then bind (make_entry (fst kr) (snd kr)) (\<lambda>e.
                     bind (scan cond rest) (\<lambda>es. Ok (e # es)))
       else scan cond rest)"

text \<open>
  \<open>retrieve\<close>. The result is \<open>None\<close> only where the scan is \<open>Unmodelled\<close>; an exception
  is caught, logged as \<open>retrieve_error\<close> and answered with the empty list.
\<close>

definition private_retrieve ::
  "PrivateMemorySystem \<Rightarrow> string \<Rightarrow> string \<Rightarrow> int \<Rightarrow> nat \<Rightarrow> (MemoryEntry list \<times> PrivateMemorySystem) option" where
  "private_retrieve st query agent limit now =
     (if agent \<noteq> store_agent_id st then
        Some ([], st\<lparr>access_log := log_access now ''retrieve_denied'' (PStr agent)
                       [(''query'', PStr query),
                        (''reason'', PStr ''cross_agent_access_denied'')] (access_log st)\<rparr>)
      else
        (case scan (private_match (lower query)) (json_file st) of
           Unmodelled \<Rightarrow> None
         | Raise e \<Rightarrow>
             Some ([], st\<lparr>access_log := log_access now ''retrieve_error'' (PStr agent)
                            [(''query'', PStr query), (''error'', PStr (str_exn e))] (access_log st)\<rparr>)
         | Ok found \<Rightarrow>
             (let results = py_take limit (sort_desc (\<lambda>x. (importance_score x, timestamp x)) found)
              in Some (results, st\<lparr>access_log := log_access now ''retrieve'' (PStr agent)
                            [(''query'', PStr query),
                             (''results_found'', PInt (int (length results))),
                             (''cross_agent_access'', PBool False),
                             (''limit'', PInt limit)] (access_log st)\<rparr>))))"

text \<open>The loop of \<open>update\<close>: a key is written only if the record already has it.\<close>

fun apply_updates :: "pydict \<Rightarrow> pydict \<Rightarrow> pydict" where
  "apply_updates [] r = r"
| "apply_updates (kv # us) r =
     apply_updates us (if fst kv \<in> set (map fst r) then AList.update (fst kv) (snd kv) r else r)"

text \<open>
  The record \<open>update\<close> saves: the loop, then \<open>data[entry_id]['timestamp']\<close> is set to
  \<open>datetime.now().isoformat()\<close>, whatever the loop wrote there.
\<close>

definition updated_record :: "pydict \<Rightarrow> pydict \<Rightarrow> nat \<Rightarrow> pydict" where
  "updated_record r updates now = AList.update ''timestamp'' (PTime now) (apply_updates updates r)"

text \<open>
  \<open>update\<close>; \<open>now\<close> is the reading written into the record, \<open>tlog\<close> the later one of
  \<open>log_access\<close>. A record without an \<open>agent_id\<close> key raises \<open>KeyError\<close> at the ownership
  test, which the method answers with \<open>False\<close>.
\<close>

definition private_update ::
  "PrivateMemorySystem \<Rightarrow> string \<Rightarrow> pydict \<Rightarrow> nat \<Rightarrow> nat \<Rightarrow> bool \<times> PrivateMemorySystem" where
  "private_update st eid updates now tlog =
     (case map_of (json_file st) eid of
        None \<Rightarrow> (False, st)
      | Some r \<Rightarrow>
          (case map_of r ''agent_id'' of
             None \<Rightarrow> (False, st)
           | Some a \<Rightarrow>
               if a \<noteq> PStr (store_agent_id st) then (False, st)
               else
                 (let r' = updated_record r updates now
                  in (True, st\<lparr>json_file := AList.update eid r' (json_file st),
                               access_log := log_access tlog ''update'' (PStr (store_agent_id st))
                                 [(''entry_id'', PStr eid),
                                  (''updates'', PList (map (\<lambda>kv. PStr (fst kv)) updates))]
                                 (access_log st)\<rparr>))))"

definition private_delete ::
  "PrivateMemorySystem \<Rightarrow> string \<Rightarrow> nat \<Rightarrow> bool \<times> PrivateMemorySystem" where
  "private_delete st eid tlog =
     (case map_of (json_file st) eid of
        None \<Rightarrow> (False, st)
      | Some r \<Rightarrow>
          (case map_of r ''agent_id'' of
             None \<Rightarrow> (False, st)
           | Some a \<Rightarrow>
               if a \<noteq> PStr (store_agent_id st) then (False, st)
               else (True, st\<lparr>json_file := AList.delete eid (json_file st),
                              access_log := log_access tlog ''delete'' (PStr (store_agent_id st))
                                [(''entry_id'', PStr eid)] (access_log st)\<rparr>)))"

section \<open>Shared store (shared\_memory.py)\<close>

text \<open>
  \<open>collection\<close> tells whether \<open>self.collection\<close> is set, that is whether the
  constructor reached ChromaDB. The index itself is outside the model: what a call to
  it answers is an argument of the method that makes the call.
\<close>

record SharedMemorySystem = JsonMemorySystem +
  collection :: bool

text \<open>
  \<open>store\<close>; \<open>add_raises\<close> tells whether \<open>collection.add\<close> raises. The JSON file is
  written before the index is, so a failing index leaves the record persisted while
  the method answers \<open>False\<close>.
\<close>

definition shared_store ::
  "SharedMemorySystem \<Rightarrow> MemoryEntry \<Rightarrow> bool \<Rightarrow> nat \<Rightarrow> bool \<times> SharedMemorySystem" where
  "shared_store st e add_raises now =
     (let st' = st\<lparr>json_file := AList.update (entry_id e) (entry_record e) (json_file st)\<rparr>
      in if collection st \<and> add_raises then (False, st')
         else (True, st'\<lparr>access_log := log_access now ''store'' (PStr (agent_id e))
                           [(''entry_id'', PStr (entry_id e)),
                            (''content_length'', PInt (int (length (content e)))),
                            (''tags'', PList (map PStr (tags e)))] (access_log st)\<rparr>))"




text \<open>
  \<open>update\<close>. The index update sits in a \<open>try\<close>/\<open>except\<close> of its own and touches
  neither the file nor the log, so it is no branch here. The log call reads the
  record's \<open>agent_id\<close> after the file is saved: a record without that key makes the
  method answer \<open>False\<close> with the update already written.
\<close>

definition shared_update ::
  "SharedMemorySystem \<Rightarrow> string \<Rightarrow> pydict \<Rightarrow> nat \<Rightarrow> nat \<Rightarrow> bool \<times> SharedMemorySystem" where
  "shared_update st eid updates now tlog =
     (case map_of (json_file st) eid of
        None \<Rightarrow> (False, st)
      | Some r \<Rightarrow>
          (let r' = updated_record r updates now;
               st' = st\<lparr>json_file := AList.update eid r' (json_file st)\<rparr>
           in case map_of r' ''agent_id'' of
                None \<Rightarrow> (False, st')
              | Some a \<Rightarrow>
                  (True, st'\<lparr>access_log := log_access tlog ''update'' a
                                [(''entry_id'', PStr eid),
                                 (''updates'', PList (map (\<lambda>kv. PStr (fst kv)) updates))]
                                (access_log st)\<rparr>)))"

definition shared_delete ::
  "SharedMemorySystem \<Rightarrow> string \<Rightarrow> nat \<Rightarrow> bool \<times> SharedMemorySystem" where
  "shared_delete st eid tlog =
     (case map_of (json_file st) eid of
        None \<Rightarrow> (False, st)
      | Some r \<Rightarrow>
          (case map_of r ''agent_id'' of
             None \<Rightarrow> (False, st)
           | Some a \<Rightarrow>
               (True, st\<lparr>json_file := AList.delete eid (json_file st),
                         access_log := log_access tlog ''delete'' a
                           [(''entry_id'', PStr eid)] (access_log st)\<rparr>)))"

text \<open>\<open>data[entry_id]['agent_id']\<close>, where there is one.\<close>

definition persisted_agent_id :: "(string \<times> pydict) list \<Rightarrow> string \<Rightarrow> pyval option" where
  "persisted_agent_id data eid =
     (case map_of data eid of None \<Rightarrow> None | Some r \<Rightarrow> map_of r ''agent_id'')"

text \<open>
  A sequence of \<open>update\<close> calls on one entry id: each call comes with its update map
  and its two clock readings.
\<close>

fun private_updates ::
  "PrivateMemorySystem \<Rightarrow> string \<Rightarrow> (pydict \<times> nat \<times> nat) list \<Rightarrow> PrivateMemorySystem" where
  "private_updates st eid [] = st"
| "private_updates st eid (c # cs) =
     private_updates (snd (private_update st eid (fst c) (fst (snd c)) (snd (snd c)))) eid cs"

fun shared_updates ::
  "SharedMemorySystem \<Rightarrow> string \<Rightarrow> (pydict \<times> nat \<times> nat) list \<Rightarrow> SharedMemorySystem" where
  "shared_updates st eid [] = st"
| "shared_updates st eid (c # cs) =
     shared_updates (snd (shared_update st eid (fst c) (fst (snd c)) (snd (snd c)))) eid cs"

section \<open>Insight filter (enhanced\_collective\_memory.py)\<close>

text \<open>
  Floats are real numbers here: the scores are quotients of small integers and sums of
  a few products, and rounding is left out.
\<close>

record EnhancedMemoryEntry = MemoryEntry +
  domain :: string
  quality_score :: real
  usage_count :: int
  success_rate :: real
  context_similarity :: real
  federation_source :: "string option"


definition specific_terms :: "string list" where
  "specific_terms = [''algorithm'', ''pattern'', ''optimization'', ''error'', ''solution'', ''approach'']"

definition action_words :: "string list" where
  "action_words = [''implement'', ''use'', ''apply'', ''consider'', ''avoid'', ''ensure'', ''check'']"

definition length_score :: "string \<Rightarrow> real" where
  "length_score insight =
     min 1 (real (length insight) / 200) * (1 - max 0 ((real (length insight) - 500) / 1000))"

definition specificity_score :: "string \<Rightarrow> real" where
  "specificity_score insight =
     real (length (filter (\<lambda>term. py_in (lower term) (lower insight)) specific_terms))
       / real (length specific_terms)"

definition code_score :: "string \<Rightarrow> real" where
  "code_score insight =
     (if py_in ''```'' insight \<or> py_in ''def '' insight \<or> py_in ''class '' insight then 1 else 1 / 2)"

definition action_score :: "string \<Rightarrow> real" where
  "action_score insight =
     min 1 (real (length (filter (\<lambda>word. py_in (lower word) (lower insight)) action_words)) / 3)"

text \<open>\<open>np.mean\<close> of the four factors; \<open>context\<close> is not read.\<close>

definition calculate_insight_quality :: "string \<Rightarrow> string \<Rightarrow> real" where
  "calculate_insight_quality insight context =
     (length_score insight + specificity_score insight + code_score insight + action_score insight) / 4"

text \<open>
  \<open>re.findall(r'\w+', s)\<close>: the maximal runs of word characters, which are the ASCII
  letters, the digits and the underscore.
\<close>

definition is_word_char :: "char \<Rightarrow> bool" where
  "is_word_char c \<longleftrightarrow>
     c \<in> set ''abcdefghijklmnopqrstuvwxyzABCDEFGHIJKLMNOPQRSTUVWXYZ0123456789_''"

fun findall_words_from :: "string \<Rightarrow> string \<Rightarrow> string list" where
  "findall_words_from cur [] = (if cur = [] then [] else [cur])"
| "findall_words_from cur (c # cs) =
     (if is_word_char c then findall_words_from (cur @ [c]) cs
      else (if cur = [] then [] else [cur]) @ findall_words_from [] cs)"

definition findall_words :: "string \<Rightarrow> string list" where
  "findall_words s = findall_words_from [] s"

definition calculate_context_similarity :: "string \<Rightarrow> string \<Rightarrow> real" where
  "calculate_context_similarity insight context =
     (let insight_words = set (findall_words (lower insight));
          context_words = set (findall_words (lower context))
      in if insight_words = {} \<or> context_words = {} then 0
         else if insight_words \<union> context_words = {} then 0
         else real (card (insight_words \<inter> context_words))
                / real (card (insight_words \<union> context_words)))"

text \<open>
  The objects \<open>filter_insights\<close> is handed: \<open>EnhancedMemoryEntry\<close> objects, or the plain
  \<open>MemoryEntry\<close> objects a store's retrieve returns, which have no \<open>success_rate\<close> and
  no \<open>usage_count\<close> (hence the \<open>getattr\<close> defaults). The first loop assigns
  \<open>quality_score\<close> and \<open>context_similarity\<close> to every object, a plain one included, so
  a plain object carries these two values; what they are before the loop is never
  read.
\<close>

datatype insight = Enhanced EnhancedMemoryEntry | Plain MemoryEntry real real










section \<open>Domain router (enhanced\_collective\_memory.py)\<close>

definition domain_patterns :: "(string \<times> string list) list" where
  "domain_patterns =
     [(''algorithms'', [''sort'', ''search'', ''tree'', ''graph'', ''dynamic programming'', ''recursion'']),
      (''data_structures'', [''list'', ''dict'', ''array'', ''stack'', ''queue'', ''heap'']),
      (''string_processing'', [''string'', ''text'', ''parse'', ''regex'', ''format'']),
      (''mathematics'', [''math'', ''calculation'', ''formula'', ''number'', ''factorial'', ''prime'']),
      (''validation'', [''validate'', ''check'', ''verify'', ''test'', ''assert'', ''error'']),
      (''optimization'', [''optimize'', ''efficient'', ''performance'', ''speed'', ''memory usage''])]"

text \<open>\<open>sum(1 for pattern in patterns if pattern in content_lower)\<close>\<close>

definition pattern_score :: "string list \<Rightarrow> string \<Rightarrow> nat" where
  "pattern_score patterns content_lower = length (filter (\<lambda>pattern. py_in pattern content_lower) patterns)"

text \<open>
  \<open>max(items, key=...)\<close> on a list that has a first item: the first item of largest
  key, since a later item replaces the best one only when its key is strictly larger.
\<close>

fun max_from :: "('a \<Rightarrow> nat) \<Rightarrow> 'a \<Rightarrow> 'a list \<Rightarrow> 'a" where
  "max_from key best [] = best"
| "max_from key best (x # xs) = max_from key (if key best < key x then x else best) xs"

text \<open>
  \<open>domain_scores\<close> is a dictionary filled in the order of \<open>domain_patterns\<close>, with the
  domains of positive score only; on the empty one the answer is \<open>general\<close>.
\<close>

definition classify_domain :: "string \<Rightarrow> string" where
  "classify_domain text =
     (let content_lower = lower text;
          domain_scores = filter (\<lambda>ds. 0 < snd ds)
                            (map (\<lambda>dp. (fst dp, pattern_score (snd dp) content_lower)) domain_patterns)
      in case domain_scores of
           [] \<Rightarrow> ''general''
         | first # others \<Rightarrow> fst (max_from snd first others))"

text \<open>
  For comparison with the code, the score as the specification words it, "counting
  occurrences of that domain's keyword list in the lower-cased text": every place
  where a keyword starts counts, so a keyword that occurs three times adds three.
  \<open>spec_classify_domain\<close> is \<open>classify_domain\<close> with this score in place of
  \<open>pattern_score\<close>.
\<close>

fun count_occurrences :: "string \<Rightarrow> string \<Rightarrow> nat" where
  "count_occurrences k [] = 0"
| "count_occurrences k (c # cs) = (if starts_with k (c # cs) then 1 else 0) + count_occurrences k cs"

definition spec_occurrence_score :: "string list \<Rightarrow> string \<Rightarrow> nat" where
  "spec_occurrence_score patterns content_lower =
     sum_list (map (\<lambda>pattern. count_occurrences pattern content_lower) patterns)"

definition spec_classify_domain :: "string \<Rightarrow> string" where
  "spec_classify_domain text =
     (let content_lower = lower text;
          domain_scores = filter (\<lambda>ds. 0 < snd ds)
                            (map (\<lambda>dp. (fst dp, spec_occurrence_score (snd dp) content_lower)) domain_patterns)
      in case domain_scores of
           [] \<Rightarrow> ''general''
         | first # others \<Rightarrow> fst (max_from snd first others))"




section \<open>Federation (enhanced\_collective\_memory.py)\<close>










section \<open>Example states\<close>

definition qa_store :: PrivateMemorySystem where
  "qa_store = \<lparr>access_log = [], json_file = [], store_agent_id = ''qa_engineer''\<rparr>"

definition pool_store :: SharedMemorySystem where
  "pool_store = \<lparr>access_log = [], json_file = [], collection = False\<rparr>"

definition entry_x :: MemoryEntry where
  "entry_x = \<lparr>entry_id = ''X'', content = ''validate input before processing'', metadata = [],
              timestamp = 1, agent_id = ''qa_engineer'', tags = [''validation''],
              importance_score = 1 / 2\<rparr>"

text \<open>
  The private store of \<open>qa_engineer\<close> after it stored \<open>X\<close> and then updated the
  \<open>agent_id\<close> field of \<open>X\<close> to \<open>engineer\<close>.
\<close>

definition foreign_store :: PrivateMemorySystem where
  "foreign_store =
     snd (private_update (snd (private_store qa_store entry_x 2)) ''X''
            [(''agent_id'', PStr ''engineer'')] 3 4)"











section \<open>Predicates the statements use\<close>





















section \<open>Properties of the stores\<close>

text \<open>Unfolding \<open>lower\<close> on a written-out string only.\<close>

lemma lower_simps: "lower [] = []" "lower (c # cs) = lower_char c # lower cs"
  by (simp_all add: lower_def)

lemma keys_apply_updates: "map fst (apply_updates us r) = map fst r"
  by (induction us arbitrary: r) (auto simp: update_keys)

lemma map_of_apply_updates:
  "map_of (apply_updates us r) k =
     (if k \<in> fst ` set r
      then (case map_of (rev us) k of Some v \<Rightarrow> Some v | None \<Rightarrow> map_of r k)
      else None)"
proof (induction us arbitrary: r)
  case Nil
  show ?case by (auto simp: map_of_eq_None_iff)
next
  case (Cons kv us)
  obtain k' v' where kv: "kv = (k', v')" by (cases kv)
  show ?case
  proof (cases "k' \<in> fst ` set r")
    case True
    then have keys: "fst ` set (AList.update k' v' r) = fst ` set r"
      by (metis update_keys list.set_map)
    show ?thesis using True keys
      by (simp add: kv Cons.IH update_conv' map_add_def split: option.splits)
  next
    case False
    then show ?thesis
      by (auto simp add: kv Cons.IH map_add_def split: option.splits)
  qed
qed

lemma updated_record_timestamp: "map_of (updated_record r us now) ''timestamp'' = Some (PTime now)"
  by (simp add: updated_record_def update_conv')

lemma updated_record_other:
  "k \<noteq> ''timestamp'' \<Longrightarrow> map_of (updated_record r us now) k =
     (if k \<in> fst ` set r
      then (case map_of (rev us) k of Some v \<Rightarrow> Some v | None \<Rightarrow> map_of r k)
      else None)"
  by (simp add: updated_record_def update_conv' map_of_apply_updates)

lemma keys_update_existing:
  "map_of d k = Some r \<Longrightarrow> map fst (AList.update k r' d) = map fst d"
  by (auto simp: update_keys intro: rev_image_eqI dest!: map_of_SomeD)

text \<open>
  Claim C1. A retrieve on a private store by an identity other than its owner returns
  the empty list and appends exactly one record to the access log, with operation
  \<open>retrieve_denied\<close> and reason \<open>cross_agent_access_denied\<close>. Nothing else of the store
  changes: the JSON file is as it was, whatever it holds, and no exception leaves the
  method.
\<close>

theorem private_retrieve_denied:
  assumes "b \<noteq> store_agent_id st"
  shows "private_retrieve st query b limit now =
           Some ([], st\<lparr>access_log := access_log st @
              [\<lparr>log_timestamp = now, operation = ''retrieve_denied'', log_agent_id = PStr b,
                details = [(''query'', PStr query), (''reason'', PStr ''cross_agent_access_denied'')]\<rparr>]\<rparr>)"
  using assms by (simp add: private_retrieve_def log_access_def)

text \<open>The scenario of the specification: \<open>qa_engineer\<close> stores \<open>X\<close>, \<open>engineer\<close> asks.\<close>

theorem private_retrieve_denied_witness:
  "''engineer'' \<noteq> store_agent_id (snd (private_store qa_store entry_x 2)) \<and>
   private_retrieve (snd (private_store qa_store entry_x 2)) ''validate'' ''engineer'' 10 3 =
     Some ([], \<lparr>access_log =
                  [\<lparr>log_timestamp = 2, operation = ''store'', log_agent_id = PStr ''qa_engineer'',
                    details = [(''entry_id'', PStr ''X''), (''content_length'', PInt 32),
                               (''tags'', PList [PStr ''validation''])]\<rparr>,
                   \<lparr>log_timestamp = 3, operation = ''retrieve_denied'', log_agent_id = PStr ''engineer'',
                    details = [(''query'', PStr ''validate''),
                               (''reason'', PStr ''cross_agent_access_denied'')]\<rparr>],
                json_file = [(''X'', entry_record entry_x)],
                store_agent_id = ''qa_engineer''\<rparr>)"
  using private_retrieve_denied [of "''engineer''" "snd (private_store qa_store entry_x 2)" "''validate''" 10 3]
  by (simp add: private_store_def qa_store_def entry_x_def log_access_def)


subsection \<open>Denied update and delete\<close>

lemma foreign_store_eval:
  "foreign_store =
     \<lparr>access_log =
        [\<lparr>log_timestamp = 2, operation = ''store'', log_agent_id = PStr ''qa_engineer'',
          details = [(''entry_id'', PStr ''X''), (''content_length'', PInt 32),
                     (''tags'', PList [PStr ''validation''])]\<rparr>,
         \<lparr>log_timestamp = 4, operation = ''update'', log_agent_id = PStr ''qa_engineer'',
          details = [(''entry_id'', PStr ''X''), (''updates'', PList [PStr ''agent_id''])]\<rparr>],
      json_file =
        [(''X'', [(''content'', PStr ''validate input before processing''),
                  (''metadata'', PDict []),
                  (''timestamp'', PTime 3),
                  (''agent_id'', PStr ''engineer''),
                  (''tags'', PList [PStr ''validation'']),
                  (''importance_score'', PFloat (1 / 2))])],
      store_agent_id = ''qa_engineer''\<rparr>"
  by (simp add: foreign_store_def private_update_def private_store_def qa_store_def entry_x_def
        log_access_def entry_record_def updated_record_def)

text \<open>
  Claim C3. An update or a delete aimed at a record whose writer is not the owner is
  denied and, by the claim, logged with a \<open>*_denied\<close> operation and a reason, as
  \<open>store\<close> and \<open>retrieve\<close> do. The code denies without logging: on the store of
  \<open>qa_engineer\<close> whose record \<open>X\<close> carries the writer \<open>engineer\<close>, both calls answer
  \<open>False\<close> and return the store as it was, access log included, which still holds the
  two earlier records only.
\<close>

theorem private_update_delete_denied_unlogged:
  "private_update foreign_store ''X'' [(''content'', PStr ''changed'')] 5 6 = (False, foreign_store) \<and>
   private_delete foreign_store ''X'' 7 = (False, foreign_store) \<and>
   map operation (access_log foreign_store) = [''store'', ''update'']"
  by (simp add: foreign_store_eval private_update_def private_delete_def)

text \<open>The part of the claim that holds: a denied call changes nothing at all.\<close>

lemma private_update_denied:
  assumes "map_of (json_file st) eid = Some r" and "map_of r ''agent_id'' = Some a"
    and "a \<noteq> PStr (store_agent_id st)"
  shows "private_update st eid updates now tlog = (False, st)"
  using assms by (simp add: private_update_def)

lemma private_delete_denied:
  assumes "map_of (json_file st) eid = Some r" and "map_of r ''agent_id'' = Some a"
    and "a \<noteq> PStr (store_agent_id st)"
  shows "private_delete st eid tlog = (False, st)"
  using assms by (simp add: private_delete_def)


subsection \<open>The writer of a record under update\<close>

lemma agent_id_updated_record:
  assumes "''agent_id'' \<notin> fst ` set u"
  shows "map_of (updated_record r u now) ''agent_id'' = map_of r ''agent_id''"
proof -
  have none: "map_of (rev u) ''agent_id'' = None"
    using assms by (simp add: map_of_eq_None_iff)
  have absent: "''agent_id'' \<notin> fst ` set r \<Longrightarrow> map_of r ''agent_id'' = None"
    by (simp add: map_of_eq_None_iff)
  show ?thesis
    using absent by (simp add: updated_record_other none)
qed

lemma persisted_agent_id_private_update:
  assumes "''agent_id'' \<notin> fst ` set u"
  shows "persisted_agent_id (json_file (snd (private_update st eid u now tlog))) eid =
         persisted_agent_id (json_file st) eid"
  by (simp add: private_update_def persisted_agent_id_def Let_def update_conv'
        agent_id_updated_record [OF assms] split: option.splits)

lemma persisted_agent_id_shared_update:
  assumes "''agent_id'' \<notin> fst ` set u"
  shows "persisted_agent_id (json_file (snd (shared_update st eid u now tlog))) eid =
         persisted_agent_id (json_file st) eid"
  by (simp add: shared_update_def persisted_agent_id_def Let_def update_conv'
        agent_id_updated_record [OF assms] split: option.splits)

text \<open>
  Through any sequence of update calls whose update maps do not have the key
  \<open>agent_id\<close>, the persisted \<open>agent_id\<close> of the entry stays what it was, in a private
  and in a shared store.
\<close>

lemma agent_id_kept_by_updates:
  assumes "\<forall>c \<in> set calls. ''agent_id'' \<notin> fst ` set (fst c)"
  shows "persisted_agent_id (json_file (private_updates p eid calls)) eid =
           persisted_agent_id (json_file p) eid
       \<and> persisted_agent_id (json_file (shared_updates s eid calls)) eid =
           persisted_agent_id (json_file s) eid"
proof
  show "persisted_agent_id (json_file (private_updates p eid calls)) eid =
        persisted_agent_id (json_file p) eid"
    using assms
    by (induction calls arbitrary: p) (simp_all add: persisted_agent_id_private_update)
  show "persisted_agent_id (json_file (shared_updates s eid calls)) eid =
        persisted_agent_id (json_file s) eid"
    using assms
    by (induction calls arbitrary: s) (simp_all add: persisted_agent_id_shared_update)
qed

text \<open>
  Claim C4. The persisted \<open>agent_id\<close> of an entry never changes after creation, by
  the claim, whatever the update maps are. The loop of \<open>update\<close> writes every key the
  record has, and \<open>agent_id\<close> is one: in the private store of \<open>qa_engineer\<close>, the update
  of \<open>X\<close> with the map \<open>{'agent_id': 'engineer'}\<close> is answered \<open>True\<close> and leaves \<open>X\<close> with
  the writer \<open>engineer\<close>. The store, which refuses to store an entry of another writer,
  now holds one: the owner's retrieve returns it, logged as no cross-agent access.
  The update of a shared store overwrites the writer in the same way.
\<close>

theorem update_overwrites_agent_id:
  "persisted_agent_id (json_file (snd (private_store qa_store entry_x 2))) ''X'' = Some (PStr ''qa_engineer'')
   \<and> fst (private_update (snd (private_store qa_store entry_x 2)) ''X''
            [(''agent_id'', PStr ''engineer'')] 3 4)
   \<and> persisted_agent_id (json_file foreign_store) ''X'' = Some (PStr ''engineer'')
   \<and> fst (private_store qa_store (entry_x\<lparr>agent_id := ''engineer''\<rparr>) 2) = False
   \<and> map_option (\<lambda>res. map agent_id (fst res))
        (private_retrieve foreign_store ''validate'' ''qa_engineer'' 10 5) = Some [''engineer'']
   \<and> map_option (\<lambda>res. map_of (details (last (access_log (snd res)))) ''cross_agent_access'')
        (private_retrieve foreign_store ''validate'' ''qa_engineer'' 10 5) = Some (Some (PBool False))
   \<and> persisted_agent_id (json_file (snd (shared_store pool_store entry_x False 2))) ''X''
        = Some (PStr ''qa_engineer'')
   \<and> persisted_agent_id
        (json_file (snd (shared_update (snd (shared_store pool_store entry_x False 2)) ''X''
                           [(''agent_id'', PStr ''engineer'')] 3 4))) ''X'' = Some (PStr ''engineer'')"
  by (simp add: foreign_store_eval persisted_agent_id_def private_update_def shared_update_def
        private_store_def shared_store_def qa_store_def pool_store_def entry_x_def entry_record_def
        updated_record_def log_access_def private_retrieve_def private_match_def make_entry_def
        get_item_def lower_simps lower_char_def py_take_def sort_desc_def)

subsection \<open>What an update changes\<close>

text \<open>
  Claim C10. An update of an existing record (in a private store: one whose writer
  is the owner) answers \<open>True\<close> whatever the update map holds, appends one \<open>update\<close>
  record to the log, and replaces the record under \<open>eid\<close> by a record \<open>r'\<close>: the ids of
  the file and their order stay, every other id keeps its record, the timestamp of
  \<open>r'\<close> is the current time, and every other key of \<open>r'\<close> has the value the update map
  gives it if the old record had that key, and the old value otherwise; a key the old
  record did not have is not added. (The update map is a dictionary; read as a list,
  its last pair for a key is the one that counts.)
\<close>

theorem update_frame:
  "(map_of (json_file p) eid = Some r \<and> map_of r ''agent_id'' = Some (PStr (store_agent_id p)) \<longrightarrow>
      (\<exists>r'. private_update p eid updates now tlog =
              (True, p\<lparr>json_file := AList.update eid r' (json_file p),
                        access_log := access_log p @
                          [\<lparr>log_timestamp = tlog, operation = ''update'',
                            log_agent_id = PStr (store_agent_id p),
                            details = [(''entry_id'', PStr eid),
                                       (''updates'', PList (map (\<lambda>kv. PStr (fst kv)) updates))]\<rparr>]\<rparr>)
          \<and> map fst (AList.update eid r' (json_file p)) = map fst (json_file p)
          \<and> (\<forall>i. i \<noteq> eid \<longrightarrow> map_of (AList.update eid r' (json_file p)) i = map_of (json_file p) i)
          \<and> map_of (AList.update eid r' (json_file p)) eid = Some r'
          \<and> map_of r' ''timestamp'' = Some (PTime now)
          \<and> (\<forall>k. k \<noteq> ''timestamp'' \<longrightarrow>
                map_of r' k =
                  (if k \<in> fst ` set r
                   then (case map_of (rev updates) k of Some v \<Rightarrow> Some v | None \<Rightarrow> map_of r k)
                   else None))))
 \<and> (map_of (json_file s) eid = Some r \<and> map_of r ''agent_id'' = Some a \<longrightarrow>
      (\<exists>r' a'. shared_update s eid updates now tlog =
              (True, s\<lparr>json_file := AList.update eid r' (json_file s),
                        access_log := access_log s @
                          [\<lparr>log_timestamp = tlog, operation = ''update'', log_agent_id = a',
                            details = [(''entry_id'', PStr eid),
                                       (''updates'', PList (map (\<lambda>kv. PStr (fst kv)) updates))]\<rparr>]\<rparr>)
          \<and> map_of r' ''agent_id'' = Some a'
          \<and> map fst (AList.update eid r' (json_file s)) = map fst (json_file s)
          \<and> (\<forall>i. i \<noteq> eid \<longrightarrow> map_of (AList.update eid r' (json_file s)) i = map_of (json_file s) i)
          \<and> map_of (AList.update eid r' (json_file s)) eid = Some r'
          \<and> map_of r' ''timestamp'' = Some (PTime now)
          \<and> (\<forall>k. k \<noteq> ''timestamp'' \<longrightarrow>
                map_of r' k =
                  (if k \<in> fst ` set r
                   then (case map_of (rev updates) k of Some v \<Rightarrow> Some v | None \<Rightarrow> map_of r k)
                   else None))))"
proof (intro conjI impI; elim conjE)
  assume rec: "map_of (json_file p) eid = Some r"
    and own: "map_of r ''agent_id'' = Some (PStr (store_agent_id p))"
  show "\<exists>r'. private_update p eid updates now tlog =
              (True, p\<lparr>json_file := AList.update eid r' (json_file p),
                        access_log := access_log p @
                          [\<lparr>log_timestamp = tlog, operation = ''update'',
                            log_agent_id = PStr (store_agent_id p),
                            details = [(''entry_id'', PStr eid),
                                       (''updates'', PList (map (\<lambda>kv. PStr (fst kv)) updates))]\<rparr>]\<rparr>)
          \<and> map fst (AList.update eid r' (json_file p)) = map fst (json_file p)
          \<and> (\<forall>i. i \<noteq> eid \<longrightarrow> map_of (AList.update eid r' (json_file p)) i = map_of (json_file p) i)
          \<and> map_of (AList.update eid r' (json_file p)) eid = Some r'
          \<and> map_of r' ''timestamp'' = Some (PTime now)
          \<and> (\<forall>k. k \<noteq> ''timestamp'' \<longrightarrow>
                map_of r' k =
                  (if k \<in> fst ` set r
                   then (case map_of (rev updates) k of Some v \<Rightarrow> Some v | None \<Rightarrow> map_of r k)
                   else None))"
    using rec own
    by (intro exI [of _ "updated_record r updates now"])
       (simp add: private_update_def Let_def log_access_def keys_update_existing update_conv'
          updated_record_timestamp updated_record_other)
next
  assume rec: "map_of (json_file s) eid = Some r"
    and ag: "map_of r ''agent_id'' = Some a"
  have "''agent_id'' \<in> fst ` set r"
    using ag by (metis map_of_eq_None_iff option.distinct(1))
  then obtain a' where a': "map_of (updated_record r updates now) ''agent_id'' = Some a'"
    using ag by (cases "map_of (rev updates) ''agent_id''") (simp_all add: updated_record_other)
  show "\<exists>r' a'. shared_update s eid updates now tlog =
              (True, s\<lparr>json_file := AList.update eid r' (json_file s),
                        access_log := access_log s @
                          [\<lparr>log_timestamp = tlog, operation = ''update'', log_agent_id = a',
                            details = [(''entry_id'', PStr eid),
                                       (''updates'', PList (map (\<lambda>kv. PStr (fst kv)) updates))]\<rparr>]\<rparr>)
          \<and> map_of r' ''agent_id'' = Some a'
          \<and> map fst (AList.update eid r' (json_file s)) = map fst (json_file s)
          \<and> (\<forall>i. i \<noteq> eid \<longrightarrow> map_of (AList.update eid r' (json_file s)) i = map_of (json_file s) i)
          \<and> map_of (AList.update eid r' (json_file s)) eid = Some r'
          \<and> map_of r' ''timestamp'' = Some (PTime now)
          \<and> (\<forall>k. k \<noteq> ''timestamp'' \<longrightarrow>
                map_of r' k =
                  (if k \<in> fst ` set r
                   then (case map_of (rev updates) k of Some v \<Rightarrow> Some v | None \<Rightarrow> map_of r k)
                   else None))"
    using rec a'
    by (intro exI [of _ "updated_record r updates now"] exI [of _ a'])
       (simp add: shared_update_def Let_def log_access_def keys_update_existing update_conv'
          updated_record_timestamp updated_record_other)
qed

theorem update_frame_witness:
  "(map_of (json_file (snd (private_store qa_store entry_x 2))) ''X'' = Some (entry_record entry_x)
    \<and> map_of (entry_record entry_x) ''agent_id''
        = Some (PStr (store_agent_id (snd (private_store qa_store entry_x 2)))))
   \<and> (map_of (json_file (snd (shared_store pool_store entry_x False 2))) ''X'' = Some (entry_record entry_x)
    \<and> map_of (entry_record entry_x) ''agent_id'' = Some (PStr ''qa_engineer''))
   \<and> private_update (snd (private_store qa_store entry_x 2)) ''X''
        [(''content'', PStr ''check input''), (''owner'', PStr ''engineer'')] 3 4 =
       (True,
        \<lparr>access_log =
           [\<lparr>log_timestamp = 2, operation = ''store'', log_agent_id = PStr ''qa_engineer'',
             details = [(''entry_id'', PStr ''X''), (''content_length'', PInt 32),
                        (''tags'', PList [PStr ''validation''])]\<rparr>,
            \<lparr>log_timestamp = 4, operation = ''update'', log_agent_id = PStr ''qa_engineer'',
             details = [(''entry_id'', PStr ''X''),
                        (''updates'', PList [PStr ''content'', PStr ''owner''])]\<rparr>],
         json_file =
           [(''X'', [(''content'', PStr ''check input''),
                     (''metadata'', PDict []),
                     (''timestamp'', PTime 3),
                     (''agent_id'', PStr ''qa_engineer''),
                     (''tags'', PList [PStr ''validation'']),
                     (''importance_score'', PFloat (1 / 2))])],
         store_agent_id = ''qa_engineer''\<rparr>)
   \<and> shared_update (snd (shared_store pool_store entry_x False 2)) ''X''
        [(''content'', PStr ''check input''), (''owner'', PStr ''engineer'')] 3 4 =
       (True,
        \<lparr>access_log =
           [\<lparr>log_timestamp = 2, operation = ''store'', log_agent_id = PStr ''qa_engineer'',
             details = [(''entry_id'', PStr ''X''), (''content_length'', PInt 32),
                        (''tags'', PList [PStr ''validation''])]\<rparr>,
            \<lparr>log_timestamp = 4, operation = ''update'', log_agent_id = PStr ''qa_engineer'',
             details = [(''entry_id'', PStr ''X''),
                        (''updates'', PList [PStr ''content'', PStr ''owner''])]\<rparr>],
         json_file =
           [(''X'', [(''content'', PStr ''check input''),
                     (''metadata'', PDict []),
                     (''timestamp'', PTime 3),
                     (''agent_id'', PStr ''qa_engineer''),
                     (''tags'', PList [PStr ''validation'']),
                     (''importance_score'', PFloat (1 / 2))])],
         collection = False\<rparr>)"
  using update_frame
    [of "snd (private_store qa_store entry_x 2)" "''X''" "entry_record entry_x"
        "[(''content'', PStr ''check input''), (''owner'', PStr ''engineer'')]" 3 4
        "snd (shared_store pool_store entry_x False 2)" "PStr ''qa_engineer''"]
  by (simp add: private_store_def shared_store_def private_update_def shared_update_def
        qa_store_def pool_store_def entry_x_def entry_record_def updated_record_def log_access_def)

subsection \<open>Private retrieve against the shared fallback\<close>

























subsection \<open>Store, then retrieve\<close>


























section \<open>Properties of the insight filter\<close>

subsection \<open>Range of the scores\<close>

lemma starts_with_set: "starts_with n h \<Longrightarrow> set n \<subseteq> set h"
  by (induction n h rule: starts_with.induct) auto

lemma py_in_set: "py_in n h \<Longrightarrow> set n \<subseteq> set h"
proof (induction h)
  case Nil
  then show ?case by simp
next
  case (Cons a h)
  from Cons.prems have "starts_with n (a # h) \<or> py_in n h" by simp
  then show ?case
  proof
    assume "starts_with n (a # h)"
    then show ?thesis by (rule starts_with_set)
  next
    assume "py_in n h"
    then have "set n \<subseteq> set h" by (rule Cons.IH)
    then show ?thesis by auto
  qed
qed

lemma py_in_foreign_char: "c \<in> set n \<Longrightarrow> c \<notin> set h \<Longrightarrow> \<not> py_in n h"
  using py_in_set by blast

text \<open>
  Three of the four factors lie between 0 and 1 for every insight, and so does the
  context similarity. The length factor does for insights of at most 1500 characters,
  and with it the quality score.
\<close>

lemma specificity_score_bounds: "0 \<le> specificity_score s \<and> specificity_score s \<le> 1"
proof -
  have "length (filter (\<lambda>term. py_in (lower term) (lower s)) specific_terms) \<le> length specific_terms"
    by (rule length_filter_le)
  then show ?thesis
    by (simp add: specificity_score_def specific_terms_def)
qed

lemma code_score_bounds: "0 \<le> code_score s \<and> code_score s \<le> 1"
  by (simp add: code_score_def)

lemma action_score_bounds: "0 \<le> action_score s \<and> action_score s \<le> 1"
  by (simp add: action_score_def)

lemma length_score_bounds:
  assumes "length s \<le> 1500"
  shows "0 \<le> length_score s \<and> length_score s \<le> 1"
proof -
  let ?a = "min 1 (real (length s) / 200)"
  let ?b = "1 - max 0 ((real (length s) - 500) / 1000)"
  have a: "0 \<le> ?a" "?a \<le> 1" by simp_all
  have b: "0 \<le> ?b" "?b \<le> 1" using assms by (simp_all add: max_def)
  have "0 \<le> ?a * ?b" using a b by (intro mult_nonneg_nonneg)
  moreover have "?a * ?b \<le> 1" using a b by (intro mult_le_one)
  ultimately show ?thesis by (simp add: length_score_def)
qed

lemma quality_bounds_short:
  assumes "length s \<le> 1500"
  shows "0 \<le> calculate_insight_quality s ctx \<and> calculate_insight_quality s ctx \<le> 1"
  using length_score_bounds [OF assms] specificity_score_bounds [of s] code_score_bounds [of s]
    action_score_bounds [of s]
  by (simp add: calculate_insight_quality_def)

lemma context_similarity_bounds:
  "0 \<le> calculate_context_similarity a b \<and> calculate_context_similarity a b \<le> 1"
proof -
  let ?A = "set (findall_words (lower a))" and ?B = "set (findall_words (lower b))"
  have "card (?A \<inter> ?B) \<le> card (?A \<union> ?B)"
    by (intro card_mono) auto
  then show ?thesis
    by (simp add: calculate_context_similarity_def Let_def divide_le_eq_1 card_gt_0_iff)
qed

text \<open>
  Claim C5. The quality score and each of its four factors lie in the interval from
  0 to 1, by the claim. The length factor is the product of \<open>min(1, len/200)\<close> and
  \<open>1 - max(0, (len - 500)/1000)\<close>; the second term is bounded from above only, and it
  is negative from 1501 characters on. On 2500 times the letter \<open>x\<close> the length factor
  is \<open>-1\<close> and the quality score \<open>-1/8\<close>.
\<close>

theorem long_insight_quality_negative:
  "length_score (replicate 2500 CHR ''x'') = - 1
   \<and> calculate_insight_quality (replicate 2500 CHR ''x'') ''binary search'' = - (1 / 8)"
proof -
  let ?s = "replicate 2500 CHR ''x''"
  have low: "lower ?s = ?s"
    by (simp add: lower_def lower_char_def)
  have no: "\<And>n. CHR ''x'' \<notin> set n \<Longrightarrow> n \<noteq> [] \<Longrightarrow> \<not> py_in n ?s"
  proof -
    fix n :: string assume "CHR ''x'' \<notin> set n" "n \<noteq> []"
    then obtain c where "c \<in> set n" "c \<noteq> CHR ''x''"
      by (cases n) auto
    then show "\<not> py_in n ?s"
      by (intro py_in_foreign_char [of c]) auto
  qed
  have len: "length_score ?s = - 1"
    by (simp add: length_score_def)
  have spec: "specificity_score ?s = 0"
    by (simp add: specificity_score_def specific_terms_def low no lower_def lower_char_def)
  have code: "code_score ?s = 1 / 2"
    by (simp add: code_score_def no)
  have act: "action_score ?s = 0"
    by (simp add: action_score_def action_words_def low no lower_def lower_char_def)
  show ?thesis
    by (simp add: calculate_insight_quality_def len spec code act)
qed

subsection \<open>Filtering and ranking\<close>




















section \<open>Properties of the domain router\<close>

lemma max_from_split:
  "\<exists>pre post. best # xs = pre @ max_from key best xs # post
     \<and> (\<forall>y \<in> set pre. key y < key (max_from key best xs))
     \<and> (\<forall>y \<in> set post. key y \<le> key (max_from key best xs))"
proof (induction xs arbitrary: best)
  case Nil
  have "[best] = [] @ max_from key best [] # []
      \<and> (\<forall>y \<in> set []. key y < key (max_from key best []))
      \<and> (\<forall>y \<in> set []. key y \<le> key (max_from key best []))"
    by simp
  then show ?case by blast
next
  case (Cons x xs)
  define b where "b = (if key best < key x then x else best)"
  define m where "m = max_from key b xs"
  from Cons.IH [of b] obtain pre post where split: "b # xs = pre @ m # post"
    and lt: "\<forall>y \<in> set pre. key y < key m" and le: "\<forall>y \<in> set post. key y \<le> key m"
    unfolding m_def by blast
  have m: "max_from key best (x # xs) = m" by (simp add: m_def b_def)
  have "\<exists>pre post. best # x # xs = pre @ m # post
     \<and> (\<forall>y \<in> set pre. key y < key m) \<and> (\<forall>y \<in> set post. key y \<le> key m)"
  proof (cases "key best < key x")
    case True
    then have split': "x # xs = pre @ m # post" using split by (simp add: b_def)
    have "key best < key m"
    proof (cases pre)
      case Nil
      then have "x = m" using split' by simp
      then show ?thesis using True by simp
    next
      case (Cons p ps)
      then have "x \<in> set pre" using split' by simp
      then have "key x < key m" using lt by blast
      then show ?thesis using True by simp
    qed
    then have "best # x # xs = (best # pre) @ m # post
        \<and> (\<forall>y \<in> set (best # pre). key y < key m) \<and> (\<forall>y \<in> set post. key y \<le> key m)"
      using split' lt le by simp
    then show ?thesis by blast
  next
    case False
    then have split': "best # xs = pre @ m # post" using split by (simp add: b_def)
    show ?thesis
    proof (cases pre)
      case Nil
      then have "best = m" and "xs = post" using split' by simp_all
      then have "best # x # xs = [] @ m # (x # xs)
          \<and> (\<forall>y \<in> set []. key y < key m) \<and> (\<forall>y \<in> set (x # xs). key y \<le> key m)"
        using le False by auto
      then show ?thesis by blast
    next
      case (Cons p ps)
      then have pre: "pre = best # ps" and xs: "xs = ps @ m # post" using split' by simp_all
      have "key best < key m" using lt pre by simp
      then have "key x < key m" using False by simp
      then have "best # x # xs = (best # x # ps) @ m # post
          \<and> (\<forall>y \<in> set (best # x # ps). key y < key m) \<and> (\<forall>y \<in> set post. key y \<le> key m)"
        using xs lt le pre by simp
      then show ?thesis by blast
    qed
  qed
  then show ?case unfolding m .
qed

lemma filter_split:
  "filter P ys = pre @ m # post \<Longrightarrow>
   \<exists>pre' post'. ys = pre' @ m # post' \<and> filter P pre' = pre \<and> filter P post' = post"
proof (induction ys arbitrary: pre)
  case Nil
  then show ?case by simp
next
  case (Cons y ys)
  show ?case
  proof (cases "P y")
    case False
    with Cons.prems have "filter P ys = pre @ m # post" by simp
    from Cons.IH [OF this] obtain pre' post' where "ys = pre' @ m # post'"
      "filter P pre' = pre" "filter P post' = post" by blast
    then have "y # ys = (y # pre') @ m # post' \<and> filter P (y # pre') = pre \<and> filter P post' = post"
      using False by simp
    then show ?thesis by blast
  next
    case True
    show ?thesis
    proof (cases pre)
      case Nil
      with Cons.prems True have "y # ys = [] @ m # ys \<and> filter P [] = pre \<and> filter P ys = post"
        by simp
      then show ?thesis by blast
    next
      case (Cons p ps)
      with Cons.prems True have p: "p = y" and "filter P ys = ps @ m # post" by simp_all
      from Cons.IH [OF this(2)] obtain pre' post' where "ys = pre' @ m # post'"
        "filter P pre' = ps" "filter P post' = post" by blast
      then have "y # ys = (y # pre') @ m # post' \<and> filter P (y # pre') = pre \<and> filter P post' = post"
        using True Cons p by simp
      then show ?thesis by blast
    qed
  qed
qed


lemma first_positive_max:
  fixes key :: "'a \<Rightarrow> nat"
  assumes "filter (\<lambda>y. 0 < key y) ys = first # others"
  shows "\<exists>pre post. ys = pre @ max_from key first others # post
           \<and> 0 < key (max_from key first others)
           \<and> (\<forall>y \<in> set pre. key y < key (max_from key first others))
           \<and> (\<forall>y \<in> set post. key y \<le> key (max_from key first others))"
proof -
  define m where "m = max_from key first others"
  from max_from_split [of first others key] obtain pre post
    where split: "first # others = pre @ m # post"
      and lt: "\<forall>y \<in> set pre. key y < key m" and le: "\<forall>y \<in> set post. key y \<le> key m"
    unfolding m_def by blast
  from assms split have f: "filter (\<lambda>y. 0 < key y) ys = pre @ m # post" by simp
  from filter_split [OF this] obtain pre' post' where ys: "ys = pre' @ m # post'"
    and pre: "filter (\<lambda>y. 0 < key y) pre' = pre" and post: "filter (\<lambda>y. 0 < key y) post' = post"
    by blast
  have "m \<in> set (filter (\<lambda>y. 0 < key y) ys)" using f by simp
  then have pos: "0 < key m" by simp
  have "\<forall>y \<in> set pre'. key y < key m"
  proof
    fix y assume y: "y \<in> set pre'"
    show "key y < key m"
    proof (cases "0 < key y")
      case True
      with y have "y \<in> set pre" using pre by auto
      then show ?thesis using lt by blast
    next
      case False
      then show ?thesis using pos by simp
    qed
  qed
  moreover have "\<forall>y \<in> set post'. key y \<le> key m"
  proof
    fix y assume y: "y \<in> set post'"
    show "key y \<le> key m"
    proof (cases "0 < key y")
      case True
      with y have "y \<in> set post" using post by auto
      then show ?thesis using le by blast
    next
      case False
      then show ?thesis by simp
    qed
  qed
  ultimately show ?thesis using ys pos unfolding m_def by blast
qed


lemmas eval_classify = classify_domain_def domain_patterns_def pattern_score_def lower_simps lower_char_def

text \<open>\<open>py_in\<close> is the substring test, and the score of a list of distinct keywords is
  the number of those that are substrings of the text.\<close>

lemma starts_with_iff: "starts_with n h \<longleftrightarrow> (\<exists>v. h = n @ v)"
  by (induction n h rule: starts_with.induct) auto

lemma py_in_iff: "py_in n h \<longleftrightarrow> (\<exists>u v. h = u @ n @ v)"
proof (induction h)
  case Nil
  show ?case by auto
next
  case (Cons c cs)
  have "(\<exists>u v. c # cs = u @ n @ v) \<longleftrightarrow> (\<exists>v. c # cs = n @ v) \<or> (\<exists>u v. cs = u @ n @ v)"
  proof
    assume "\<exists>u v. c # cs = u @ n @ v"
    then obtain u v where uv: "c # cs = u @ n @ v" by blast
    show "(\<exists>v. c # cs = n @ v) \<or> (\<exists>u v. cs = u @ n @ v)"
    proof (cases u)
      case Nil
      then show ?thesis using uv by auto
    next
      case (Cons a u')
      then have "cs = u' @ n @ v" using uv by simp
      then show ?thesis by blast
    qed
  next
    assume "(\<exists>v. c # cs = n @ v) \<or> (\<exists>u v. cs = u @ n @ v)"
    then show "\<exists>u v. c # cs = u @ n @ v"
    proof
      assume "\<exists>v. c # cs = n @ v"
      then obtain v where "c # cs = [] @ n @ v" by auto
      then show ?thesis by blast
    next
      assume "\<exists>u v. cs = u @ n @ v"
      then obtain u v where "c # cs = (c # u) @ n @ v" by auto
      then show ?thesis by blast
    qed
  qed
  then show ?case using Cons.IH by (simp add: starts_with_iff)
qed

lemma pattern_score_card:
  assumes "distinct ps"
  shows "pattern_score ps t = card {k \<in> set ps. \<exists>u v. t = u @ k @ v}"
proof -
  have "{k. py_in k t} \<inter> set ps = {k \<in> set ps. \<exists>u v. t = u @ k @ v}"
    by (auto simp: py_in_iff)
  then show ?thesis
    using distinct_length_filter [OF assms, of "\<lambda>k. py_in k t"] by (simp add: pattern_score_def)
qed

lemma domain_patterns_distinct: "\<forall>dp \<in> set domain_patterns. distinct (snd dp)"
  by (simp add: domain_patterns_def)

lemma classify_binary_search: "classify_domain ''binary search implementation'' = ''algorithms''"
  by (simp add: eval_classify)

lemma classify_no_keyword:
  assumes "list_all (\<lambda>dp. pattern_score (snd dp) (lower text) = 0) domain_patterns"
  shows "classify_domain text = ''general''"
proof -
  have "filter (\<lambda>ds. 0 < snd ds)
          (map (\<lambda>dp. (fst dp, pattern_score (snd dp) (lower text))) domain_patterns) = []"
    using assms by (simp add: filter_empty_conv list_all_iff)
  then show ?thesis by (simp add: classify_domain_def)
qed

lemma classify_some_keyword:
  assumes "list_ex (\<lambda>dp. 0 < pattern_score (snd dp) (lower text)) domain_patterns"
  shows "\<exists>pre d ps post. domain_patterns = pre @ (d, ps) # post \<and> classify_domain text = d
           \<and> 0 < pattern_score ps (lower text)
           \<and> (\<forall>dp \<in> set pre. pattern_score (snd dp) (lower text) < pattern_score ps (lower text))
           \<and> (\<forall>dp \<in> set post. pattern_score (snd dp) (lower text) \<le> pattern_score ps (lower text))"
proof -
  define g where "g = (\<lambda>dp :: string \<times> string list. (fst dp, pattern_score (snd dp) (lower text)))"
  define ds where "ds = filter (\<lambda>ds. 0 < snd ds) (map g domain_patterns)"
  have "ds \<noteq> []"
    using assms by (auto simp: ds_def g_def filter_empty_conv list_ex_iff)
  then obtain first others where ds: "ds = first # others" by (cases ds) auto
  define m where "m = max_from snd first others"
  have cls: "classify_domain text = fst m"
    using ds by (simp add: classify_domain_def ds_def [symmetric] g_def [symmetric] m_def)
  from first_positive_max [of snd "map g domain_patterns" first others] ds
  obtain pre post where split: "map g domain_patterns = pre @ m # post" and pos: "0 < snd m"
    and lt: "\<forall>y \<in> set pre. snd y < snd m" and le: "\<forall>y \<in> set post. snd y \<le> snd m"
    unfolding ds_def m_def by blast
  from split obtain pre0 t post0 where dp: "domain_patterns = pre0 @ t # post0"
    and pre0: "pre = map g pre0" and t: "g t = m" and post0: "post = map g post0"
    by (auto simp: map_eq_append_conv map_eq_Cons_conv)
  have "domain_patterns = pre0 @ (fst t, snd t) # post0 \<and> classify_domain text = fst t
      \<and> 0 < pattern_score (snd t) (lower text)
      \<and> (\<forall>dp \<in> set pre0. pattern_score (snd dp) (lower text) < pattern_score (snd t) (lower text))
      \<and> (\<forall>dp \<in> set post0. pattern_score (snd dp) (lower text) \<le> pattern_score (snd t) (lower text))"
    using dp cls pos lt le t [symmetric] by (simp add: pre0 post0 g_def)
  then show ?thesis by blast
qed

text \<open>
  Claim C7, amended. The score of a domain is the number of its keywords that occur
  in the lower-cased text as substrings, each keyword counted once however often it
  occurs. When no domain has a positive score the answer is \<open>general\<close>. Otherwise the
  answer is a domain of \<open>domain_patterns\<close> with a positive score, every domain declared
  before it has a strictly smaller score and every domain declared after it has no
  larger one: the highest score, the first declared among equals. \<open>classify_domain\<close>
  is a function of the text, and on \<open>binary search implementation\<close> it answers
  \<open>algorithms\<close>.
\<close>

theorem classify_domain_spec:
  "(\<forall>dp \<in> set domain_patterns.
      pattern_score (snd dp) (lower text) = card {k \<in> set (snd dp). \<exists>u v. lower text = u @ k @ v})
   \<and> (list_all (\<lambda>dp. pattern_score (snd dp) (lower text) = 0) domain_patterns
      \<longrightarrow> classify_domain text = ''general'')
   \<and> (list_ex (\<lambda>dp. 0 < pattern_score (snd dp) (lower text)) domain_patterns
      \<longrightarrow> (\<exists>pre d ps post. domain_patterns = pre @ (d, ps) # post \<and> classify_domain text = d
             \<and> 0 < pattern_score ps (lower text)
             \<and> (\<forall>dp \<in> set pre. pattern_score (snd dp) (lower text) < pattern_score ps (lower text))
             \<and> (\<forall>dp \<in> set post. pattern_score (snd dp) (lower text) \<le> pattern_score ps (lower text))))
   \<and> classify_domain ''binary search implementation'' = ''algorithms''"
  using classify_no_keyword classify_some_keyword classify_binary_search
    pattern_score_card domain_patterns_distinct
  by blast

lemma classify_examples:
  "classify_domain ''Hello, world'' = ''general''
   \<and> classify_domain ''Sort the list'' = ''algorithms''
   \<and> classify_domain ''a list of strings in a dict'' = ''data_structures''"
  by (simp add: eval_classify)

lemma algorithms_declared:
  "(''algorithms'', [''sort'', ''search'', ''tree'', ''graph'', ''dynamic programming'', ''recursion''])
     \<in> set domain_patterns"
  by (simp add: domain_patterns_def)

theorem classify_domain_spec_witness:
  "(''algorithms'', [''sort'', ''search'', ''tree'', ''graph'', ''dynamic programming'', ''recursion''])
     \<in> set domain_patterns
   \<and> pattern_score [''sort'', ''search'', ''tree'', ''graph'', ''dynamic programming'', ''recursion'']
        (lower ''Sort the list'')
      = card {k \<in> set [''sort'', ''search'', ''tree'', ''graph'', ''dynamic programming'', ''recursion''].
                \<exists>u v. lower ''Sort the list'' = u @ k @ v}
   \<and> list_all (\<lambda>dp. pattern_score (snd dp) (lower ''Hello, world'') = 0) domain_patterns
   \<and> classify_domain ''Hello, world'' = ''general''
   \<and> list_ex (\<lambda>dp. 0 < pattern_score (snd dp) (lower ''Sort the list'')) domain_patterns
   \<and> (\<exists>pre d ps post. domain_patterns = pre @ (d, ps) # post \<and> classify_domain ''Sort the list'' = d
         \<and> 0 < pattern_score ps (lower ''Sort the list'')
         \<and> (\<forall>dp \<in> set pre. pattern_score (snd dp) (lower ''Sort the list'')
                              < pattern_score ps (lower ''Sort the list''))
         \<and> (\<forall>dp \<in> set post. pattern_score (snd dp) (lower ''Sort the list'')
                              \<le> pattern_score ps (lower ''Sort the list'')))"
proof -
  have none: "list_all (\<lambda>dp. pattern_score (snd dp) (lower ''Hello, world'') = 0) domain_patterns"
    by (simp add: eval_classify)
  have some: "list_ex (\<lambda>dp. 0 < pattern_score (snd dp) (lower ''Sort the list'')) domain_patterns"
    by (simp add: eval_classify)
  have spec: "pattern_score (snd (''algorithms'',
                  [''sort'', ''search'', ''tree'', ''graph'', ''dynamic programming'', ''recursion'']))
                (lower ''Sort the list'')
              = card {k \<in> set (snd (''algorithms'',
                  [''sort'', ''search'', ''tree'', ''graph'', ''dynamic programming'', ''recursion''])).
                \<exists>u v. lower ''Sort the list'' = u @ k @ v}"
    using classify_domain_spec [of "''Sort the list''"] algorithms_declared by blast
  show ?thesis
    using none some spec algorithms_declared
      classify_domain_spec [of "''Hello, world''"] classify_domain_spec [of "''Sort the list''"]
    by simp
qed

text \<open>
  Claim C7 as stated (a score that counts occurrences) fails on
  \<open>sort sort sort list dict\<close>: counted by occurrences, the keywords of \<open>algorithms\<close>
  score three and those of \<open>data_structures\<close> two, and the highest score is that of
  \<open>algorithms\<close>; the code counts \<open>sort\<close> once, scores one against two, and answers
  \<open>data_structures\<close>.
\<close>

theorem classify_counts_keywords_once:
  "spec_occurrence_score [''sort'', ''search'', ''tree'', ''graph'', ''dynamic programming'', ''recursion'']
      (lower ''sort sort sort list dict'') = 3
   \<and> spec_occurrence_score [''list'', ''dict'', ''array'', ''stack'', ''queue'', ''heap'']
      (lower ''sort sort sort list dict'') = 2
   \<and> spec_classify_domain ''sort sort sort list dict'' = ''algorithms''
   \<and> pattern_score [''sort'', ''search'', ''tree'', ''graph'', ''dynamic programming'', ''recursion'']
      (lower ''sort sort sort list dict'') = 1
   \<and> pattern_score [''list'', ''dict'', ''array'', ''stack'', ''queue'', ''heap'']
      (lower ''sort sort sort list dict'') = 2
   \<and> classify_domain ''sort sort sort list dict'' = ''data_structures''"
  by (simp add: eval_classify spec_classify_domain_def spec_occurrence_score_def)

section \<open>Federation round trip\<close>




















end
